theory Spec2Isabelle
  imports Main "HOL-Library.Word"
begin

section \<open>Data model of \<^verbatim>\<open>keyboard.py\<close>\<close>

text \<open>
  The class \<^verbatim>\<open>Keyboard\<close> talks to a keyboard through an injected function
  \<^verbatim>\<open>usb_send(dev, msg)\<close>. Messages are byte strings. A device is modelled by its answers:
  given the requests it has received so far and a new request, it answers with a response, or
  the exchange raises (\<open>None\<close>). Since every exchange extends the history, any sequence of
  answers of a real device is such a function.
\<close>

type_synonym bytes = "8 word list"

type_synonym device = "bytes list \<Rightarrow> bytes \<Rightarrow> bytes option"

datatype error =
  KeyError | StructError | IndexError | ValueError | TransportError | PayloadError | DeserializeError

text \<open>
  A key record of the layout deserializer, with the fields this module reads and writes:
  the label list (an entry may be \<^verbatim>\<open>None\<close>) and the parsed position (the attributes
  \<^verbatim>\<open>row\<close> and \<^verbatim>\<open>col\<close>).
\<close>

record key =
  labels :: "string option list"
  key_row :: "int option"
  key_col :: "int option"

text \<open>
  The attributes of a \<^verbatim>\<open>Keyboard\<close> object. \<open>rowcol\<close> is the \<^verbatim>\<open>OrderedDict\<close>, kept as
  the list of its keys in insertion order (its values are all \<^verbatim>\<open>True\<close>); \<open>layout\<close> is the
  dict from (layer, row, col) to keycode. \<open>sent\<close> is not an attribute of the class: it records,
  oldest first, every message handed to \<^verbatim>\<open>usb_send\<close>.
\<close>

record keyboard =
  rowcol :: "(int \<times> int) list"
  layout :: "(int \<times> int \<times> int) \<rightharpoonup> int"
  rows :: int
  cols :: int
  layers :: int
  keys :: "key list"
  vial_protocol :: int
  keyboard_id :: int
  sent :: "bytes list"

text \<open>
  A method either returns a value or raises; in both cases the object is left in some state,
  which the result carries.
\<close>

datatype 'a result = Return 'a keyboard | Raise error keyboard

fun state_of :: "'a result \<Rightarrow> keyboard" where
  "state_of (Return a s) = s"
| "state_of (Raise e s) = s"

fun returns :: "'a result \<Rightarrow> bool" where
  "returns (Return a s) = True"
| "returns (Raise e s) = False"

definition bind :: "'a result \<Rightarrow> ('a \<Rightarrow> keyboard \<Rightarrow> 'b result) \<Rightarrow> 'b result" where
  "bind m f = (case m of Raise e s \<Rightarrow> Raise e s | Return a s \<Rightarrow> f a s)"

text \<open>A pure computation that may raise, run in state \<open>s\<close>.\<close>

definition lift :: "error \<Rightarrow> 'a option \<Rightarrow> keyboard \<Rightarrow> 'a result" where
  "lift e v s = (case v of None \<Rightarrow> Raise e s | Some a \<Rightarrow> Return a s)"

text \<open>\<^verbatim>\<open>for x in xs: body\<close>, left to right, stopping at the first exception.\<close>

fun for_each :: "'a list \<Rightarrow> ('a \<Rightarrow> keyboard \<Rightarrow> unit result) \<Rightarrow> keyboard \<Rightarrow> unit result" where
  "for_each [] f s = Return () s"
| "for_each (x # xs) f s = bind (f x s) (\<lambda>_. for_each xs f)"

text \<open>\<^verbatim>\<open>enumerate(xs)\<close> and \<^verbatim>\<open>range(n)\<close> (empty when \<open>n \<le> 0\<close>).\<close>

definition enumerate_py :: "'a list \<Rightarrow> (int \<times> 'a) list" where
  "enumerate_py xs = map (\<lambda>i. (int i, xs ! i)) [0..<length xs]"

definition range_py :: "int \<Rightarrow> int list" where
  "range_py n = map int [0..<nat n]"

section \<open>The \<^verbatim>\<open>struct\<close> encodings used by the module\<close>

definition CMD_VIA_GET_KEYCODE :: int where "CMD_VIA_GET_KEYCODE = 0x04"
definition CMD_VIA_SET_KEYCODE :: int where "CMD_VIA_SET_KEYCODE = 0x05"
definition CMD_VIA_VIAL_PREFIX :: int where "CMD_VIA_VIAL_PREFIX = 0xFE"
definition CMD_VIAL_GET_DEFINITION :: int where "CMD_VIAL_GET_DEFINITION = 0x02"

text \<open>Little-endian bytes of an integer, and back; big-endian is the reverse.\<close>

fun le_encode :: "nat \<Rightarrow> int \<Rightarrow> bytes" where
  "le_encode 0 x = []"
| "le_encode (Suc n) x = word_of_int x # le_encode n (x div 256)"

fun le_decode :: "bytes \<Rightarrow> int" where
  "le_decode [] = 0"
| "le_decode (b # bs) = uint b + 256 * le_decode bs"

definition be_encode :: "nat \<Rightarrow> int \<Rightarrow> bytes" where
  "be_encode n x = rev (le_encode n x)"

definition be_decode :: "bytes \<Rightarrow> int" where
  "be_decode bs = le_decode (rev bs)"

text \<open>
  \<^verbatim>\<open>struct.pack\<close> raises \<^verbatim>\<open>struct.error\<close> when an argument does not fit its field:
  an unsigned field of \<open>n\<close> bytes takes the integers from 0 to \<open>256 ^ n - 1\<close>.
\<close>

definition fits :: "nat \<Rightarrow> int \<Rightarrow> bool" where
  "fits n x = (0 \<le> x \<and> x < 256 ^ n)"



text \<open>\<^verbatim>\<open>struct.pack("<BBI", a, b, n)\<close>\<close>
definition pack_BBI :: "int \<Rightarrow> int \<Rightarrow> int \<Rightarrow> bytes option" where
  "pack_BBI a b n =
     (if fits 1 a \<and> fits 1 b \<and> fits 4 n
      then Some (le_encode 1 a @ le_encode 1 b @ le_encode 4 n) else None)"

text \<open>\<^verbatim>\<open>struct.pack("BBBB", a, b, c, d)\<close>\<close>
definition pack_BBBB :: "int \<Rightarrow> int \<Rightarrow> int \<Rightarrow> int \<Rightarrow> bytes option" where
  "pack_BBBB a b c d =
     (if fits 1 a \<and> fits 1 b \<and> fits 1 c \<and> fits 1 d
      then Some (le_encode 1 a @ le_encode 1 b @ le_encode 1 c @ le_encode 1 d) else None)"

text \<open>\<^verbatim>\<open>struct.pack(">BBBBH", a, b, c, d, h)\<close>\<close>
definition pack_BBBBH :: "int \<Rightarrow> int \<Rightarrow> int \<Rightarrow> int \<Rightarrow> int \<Rightarrow> bytes option" where
  "pack_BBBBH a b c d h =
     (if fits 1 a \<and> fits 1 b \<and> fits 1 c \<and> fits 1 d \<and> fits 2 h
      then Some (le_encode 1 a @ le_encode 1 b @ le_encode 1 c @ le_encode 1 d @ be_encode 2 h)
      else None)"

text \<open>
  \<^verbatim>\<open>struct.unpack\<close> raises \<^verbatim>\<open>struct.error\<close> unless the buffer has exactly the size of the
  format; the buffer is a slice, which is shorter when the response is.
\<close>


text \<open>\<^verbatim>\<open>struct.unpack("<I", data[0:4])[0]\<close>\<close>
definition unpack_I :: "bytes \<Rightarrow> int option" where
  "unpack_I data = (let b = take 4 data in if length b = 4 then Some (le_decode b) else None)"

text \<open>\<^verbatim>\<open>struct.unpack(">H", data[4:6])[0]\<close>\<close>
definition unpack_H :: "bytes \<Rightarrow> int option" where
  "unpack_H data =
     (let b = take 2 (drop 4 data) in if length b = 2 then Some (be_decode b) else None)"

section \<open>The methods of \<^verbatim>\<open>Keyboard\<close>\<close>

text \<open>\<^verbatim>\<open>self.usb_send(self.dev, msg)\<close>: the message is recorded, then the device answers or the
  exchange raises.\<close>

definition usb_send :: "device \<Rightarrow> bytes \<Rightarrow> keyboard \<Rightarrow> bytes result" where
  "usb_send dev msg s =
     (let s' = s\<lparr>sent := sent s @ [msg]\<rparr> in
      case dev (sent s) msg of None \<Rightarrow> Raise TransportError s' | Some data \<Rightarrow> Return data s')"

text \<open>\<^verbatim>\<open>Keyboard.__init__\<close>\<close>

definition Keyboard_init :: keyboard where
  "Keyboard_init =
     \<lparr>rowcol = [], layout = Map.empty, rows = 0, cols = 0, layers = 0, keys = [],
      vial_protocol = - 1, keyboard_id = - 1, sent = []\<rparr>"

text \<open>
  \<^verbatim>\<open>Keyboard.set_key\<close>. The lookup \<^verbatim>\<open>self.layout[key]\<close> raises \<^verbatim>\<open>KeyError\<close> for a missing
  key; the message is packed before \<^verbatim>\<open>usb_send\<close> is called; the cache is written after
  \<^verbatim>\<open>usb_send\<close> has returned.
\<close>

definition set_key :: "device \<Rightarrow> int \<Rightarrow> int \<Rightarrow> int \<Rightarrow> int \<Rightarrow> keyboard \<Rightarrow> unit result" where
  "set_key dev layer row col code s =
     (let key = (layer, row, col) in
      bind (lift KeyError (layout s key) s) (\<lambda>cur s.
        if cur \<noteq> code then
          bind (lift StructError (pack_BBBBH CMD_VIA_SET_KEYCODE layer row col code) s) (\<lambda>msg s.
          bind (usb_send dev msg s) (\<lambda>_ s.
            Return () (s\<lparr>layout := (layout s)(key \<mapsto> code)\<rparr>)))
        else Return () s))"


text \<open>\<^verbatim>\<open>Keyboard.reload_keymap\<close>\<close>

definition reload_keymap :: "device \<Rightarrow> keyboard \<Rightarrow> unit result" where
  "reload_keymap dev s =
     for_each (range_py (layers s)) (\<lambda>layer s.
       for_each (rowcol s) (\<lambda>(row, col) s.
         bind (lift StructError (pack_BBBB CMD_VIA_GET_KEYCODE layer row col) s) (\<lambda>msg s.
         bind (usb_send dev msg s) (\<lambda>data s.
         bind (lift StructError (unpack_H data) s) (\<lambda>keycode s.
           Return () (s\<lparr>layout := (layout s)((layer, row, col) \<mapsto> keycode)\<rparr>))))) s) s"

subsection \<open>Saving and restoring\<close>

text \<open>
  The save document: \<^verbatim>\<open>{"version": 0, "layout": [...]}\<close>, a three-level list of integers.
  \<^verbatim>\<open>json.dumps\<close>, \<^verbatim>\<open>encode\<close>, \<^verbatim>\<open>decode\<close> and \<^verbatim>\<open>json.loads\<close> are library functions that
  write such a document to bytes and read the same document back; the model passes the
  document itself. Documents of another shape are not modelled.
\<close>

record saved_layout =
  doc_version :: int
  doc_layout :: "int list list list"

text \<open>\<^verbatim>\<open>Keyboard.save_layout\<close>; \<^verbatim>\<open>self.layout.get(k, -1)\<close> is \<open>-1\<close> for a missing key.\<close>

definition save_layout :: "keyboard \<Rightarrow> saved_layout" where
  "save_layout s =
     \<lparr>doc_version = 0,
      doc_layout =
        map (\<lambda>l. map (\<lambda>r. map (\<lambda>c. case layout s (l, r, c) of None \<Rightarrow> - 1 | Some val \<Rightarrow> val)
                              (range_py (cols s)))
                   (range_py (rows s)))
            (range_py (layers s))\<rparr>"

text \<open>Lines 137 and 138: the body of the innermost loop of \<^verbatim>\<open>restore_layout\<close>.\<close>

definition restore_layout_entry :: "device \<Rightarrow> int \<Rightarrow> int \<Rightarrow> int \<Rightarrow> int \<Rightarrow> keyboard \<Rightarrow> unit result" where
  "restore_layout_entry dev l r c col s =
     (if (l, r, c) \<in> dom (layout s) then set_key dev l r c col s else Return () s)"

text \<open>\<^verbatim>\<open>Keyboard.restore_layout\<close>\<close>

definition restore_layout :: "device \<Rightarrow> saved_layout \<Rightarrow> keyboard \<Rightarrow> unit result" where
  "restore_layout dev data s =
     for_each (enumerate_py (doc_layout data)) (\<lambda>(l, layer).
       for_each (enumerate_py layer) (\<lambda>(r, row).
         for_each (enumerate_py row) (\<lambda>(c, col).
           restore_layout_entry dev l r c col))) s"

text \<open>
  The entries \<open>(l, r, c, value)\<close> of a save document, in the order in which the three loops of
  \<^verbatim>\<open>restore_layout\<close> visit them.
\<close>

definition doc_entries :: "saved_layout \<Rightarrow> (int \<times> int \<times> int \<times> int) list" where
  "doc_entries data =
     concat (map (\<lambda>(l, layer).
       concat (map (\<lambda>(r, row). map (\<lambda>(c, col). (l, r, c, col)) (enumerate_py row))
                   (enumerate_py layer)))
       (enumerate_py (doc_layout data)))"

subsection \<open>Discovery\<close>








text \<open>
  The parsed layout document, with the fields the module reads. A field that is missing
  (\<open>None\<close>) makes the subscript raise \<^verbatim>\<open>KeyError\<close>. \<open>'k\<close> is the type of the
  \<^verbatim>\<open>layouts.keymap\<close> sub-document, which only the deserializer reads.
\<close>

record matrix_doc =
  m_rows :: "int option"
  m_cols :: "int option"

record 'k layouts_doc =
  l_keymap :: "'k option"

record 'k payload =
  p_matrix :: "matrix_doc option"
  p_layouts :: "'k layouts_doc option"


text \<open>
  Lines 66 to 75: the loop that fetches the payload, with the loop variables \<open>sz\<close>, \<open>block\<close>
  and \<open>payload\<close> as arguments. \<open>MSG_LEN\<close> is a constant of the module \<^verbatim>\<open>util\<close> and is a
  parameter here. The loop need not end (\<open>MSG_LEN \<le> 0\<close>): \<open>None\<close> is a run that does not.
\<close>

partial_function (option) fetch_payload ::
  "device \<Rightarrow> int \<Rightarrow> int \<Rightarrow> int \<Rightarrow> bytes \<Rightarrow> keyboard \<Rightarrow> bytes result option" where
  "fetch_payload dev MSG_LEN sz block payload s =
     (if sz > 0 then
        (case pack_BBI CMD_VIA_VIAL_PREFIX CMD_VIAL_GET_DEFINITION block of
           None \<Rightarrow> Some (Raise StructError s)
         | Some msg \<Rightarrow>
             (case usb_send dev msg s of
                Raise e s' \<Rightarrow> Some (Raise e s')
              | Return data s' \<Rightarrow>
                  fetch_payload dev MSG_LEN (sz - MSG_LEN) (block + 1)
                    (payload @ (if sz < MSG_LEN then take (nat sz) data else data)) s'))
      else Some (Return payload s))"





section \<open>Predicates and examples used in the statements\<close>

text \<open>Every index triple within the layer count and the matrix dimensions has a keycode.\<close>

definition fully_populated :: "keyboard \<Rightarrow> bool" where
  "fully_populated s =
     (\<forall>l \<in> set (range_py (layers s)). \<forall>r \<in> set (range_py (rows s)). \<forall>c \<in> set (range_py (cols s)).
        (l, r, c) \<in> dom (layout s))"

text \<open>The triple of a document entry is a key of \<open>layout\<close>.\<close>

definition known :: "keyboard \<Rightarrow> int \<times> int \<times> int \<times> int \<Rightarrow> bool" where
  "known s e = (case e of (l, r, c, v) \<Rightarrow> (l, r, c) \<in> dom (layout s))"

text \<open>Every cached keycode is an unsigned 16-bit value, as \<^verbatim>\<open>struct.unpack(">H", ...)\<close> gives.\<close>

definition keycodes_16bit :: "keyboard \<Rightarrow> bool" where
  "keycodes_16bit s = (\<forall>v \<in> ran (layout s). fits 2 v)"

text \<open>
  From \<open>s\<close> to \<open>s'\<close> the keys of \<open>layout\<close> are the same, and the messages sent in between are
  all set-keycode messages for keys of \<open>layout s\<close>.
\<close>

definition writes_known :: "keyboard \<Rightarrow> keyboard \<Rightarrow> bool" where
  "writes_known s s' =
     (dom (layout s') = dom (layout s) \<and>
      (\<exists>ws. sent s' = sent s @ ws \<and>
         (\<forall>w \<in> set ws. \<exists>l r c v. (l, r, c) \<in> dom (layout s) \<and>
            pack_BBBBH CMD_VIA_SET_KEYCODE l r c v = Some w)))"

text \<open>
  A session with one layer and the keys (0,0) and (1,0), holding the keycodes 10 and 20, and a
  device that answers every request with 32 zero bytes.
\<close>

definition example_keyboard :: keyboard where
  "example_keyboard =
     Keyboard_init\<lparr>rowcol := [(0, 0), (1, 0)], layout := [(0, 0, 0) \<mapsto> 10, (0, 1, 0) \<mapsto> 20],
       rows := 2, cols := 1, layers := 1\<rparr>"

definition silent_device :: device where
  "silent_device h m = Some (replicate 32 0)"

text \<open>The same session with one matrix row declared: the key (1,0) lies beyond it.\<close>

definition example_narrow_keyboard :: keyboard where
  "example_narrow_keyboard = example_keyboard\<lparr>rows := 1\<rparr>"

text \<open>A device whose every answer is the two bytes 1, 2.\<close>

definition two_byte_device :: device where
  "two_byte_device h m = Some [1, 2]"












section \<open>Properties\<close>

lemma bind_Return [simp]: "bind (Return a s) f = f a s"
  by (simp add: bind_def)

lemma bind_Raise [simp]: "bind (Raise e s) f = Raise e s"
  by (simp add: bind_def)

lemma lift_Some [simp]: "lift e (Some a) s = Return a s"
  by (simp add: lift_def)

lemma lift_None [simp]: "lift e None s = Raise e s"
  by (simp add: lift_def)

subsection \<open>Loops\<close>

lemma for_each_noop:
  "(\<And>x. x \<in> set xs \<Longrightarrow> f x s = Return () s) \<Longrightarrow> for_each xs f s = Return () s"
  by (induction xs) simp_all

lemma for_each_append:
  "for_each (xs @ ys) f s = bind (for_each xs f s) (\<lambda>_. for_each ys f)"
  by (induction xs arbitrary: s) (simp_all add: bind_def split: result.splits)

lemma for_each_map: "for_each (map g xs) f s = for_each xs (\<lambda>x. f (g x)) s"
  by (induction xs arbitrary: s) (simp_all add: bind_def split: result.splits)

lemma for_each_concat:
  "for_each (concat xss) f s = for_each xss (\<lambda>xs. for_each xs f) s"
  by (induction xss arbitrary: s) (simp_all add: for_each_append bind_def split: result.splits)

lemma for_each_cong:
  "(\<And>x s. x \<in> set xs \<Longrightarrow> f x s = g x s) \<Longrightarrow> for_each xs f s = for_each xs g s"
  by (induction xs arbitrary: s) (simp_all add: bind_def split: result.splits)

lemma for_each_inv:
  assumes "I s" and "\<And>x s. x \<in> set xs \<Longrightarrow> I s \<Longrightarrow> I (state_of (f x s))"
  shows "I (state_of (for_each xs f s))"
  using assms
proof (induction xs arbitrary: s)
  case Nil
  then show ?case by simp
next
  case (Cons x xs)
  have "I (state_of (f x s))" using Cons.prems by simp
  then show ?case
    using Cons by (cases "f x s") (simp_all)
qed

lemma restore_layout_entries:
  "restore_layout dev data s =
     for_each (doc_entries data) (\<lambda>(l, r, c, col). restore_layout_entry dev l r c col) s"
  unfolding restore_layout_def doc_entries_def
  apply (simp add: for_each_concat for_each_map)
  apply (rule for_each_cong)
  apply (clarsimp simp: for_each_concat for_each_map)
  apply (rule for_each_cong)
  apply (clarsimp simp: for_each_concat for_each_map)
  done

lemma set_enumerate_py:
  "set (enumerate_py xs) = {(int i, xs ! i) | i. i < length xs}"
  by (auto simp: enumerate_py_def)

lemma enumerate_py_map_range:
  "enumerate_py (map f (range_py n)) = map (\<lambda>i. (i, f i)) (range_py n)"
  by (simp add: enumerate_py_def range_py_def)

lemma set_range_py: "set (range_py n) = {i. 0 \<le> i \<and> i < n}"
  apply (auto simp: range_py_def)
  subgoal for x by (rule image_eqI [of _ _ "nat x"]) auto
  done

lemma set_doc_entries_save:
  "set (doc_entries (save_layout s)) =
     {(l, r, c, v). 0 \<le> l \<and> l < layers s \<and> 0 \<le> r \<and> r < rows s \<and> 0 \<le> c \<and> c < cols s \<and>
        v = (case layout s (l, r, c) of None \<Rightarrow> - 1 | Some val \<Rightarrow> val)}"
  by (auto simp: doc_entries_def save_layout_def enumerate_py_map_range set_range_py)

lemma restore_save_noop: "restore_layout dev (save_layout s) s = Return () s"
  unfolding restore_layout_entries
  by (rule for_each_noop)
     (auto simp: set_doc_entries_save restore_layout_entry_def set_key_def)

subsection \<open>Claims\<close>

text \<open>
  C7. \<^verbatim>\<open>set_key\<close> for a triple that is not a key of \<open>layout\<close> raises \<^verbatim>\<open>KeyError\<close>; the state in
  which it raises is the state before the call, so no message was sent and \<open>layout\<close> is as it
  was.
\<close>

theorem set_key_absent_raises:
  "layout s (layer, row, col) = None \<Longrightarrow> set_key dev layer row col code s = Raise KeyError s"
  by (simp add: set_key_def)

theorem set_key_absent_raises_witness:
  "layout Keyboard_init (0, 0, 0) = None \<and>
   set_key (\<lambda>h m. Some []) 0 0 0 4 Keyboard_init = Raise KeyError Keyboard_init"
  using set_key_absent_raises [of Keyboard_init 0 0 0 "\<lambda>h m. Some []" 4]
  by (simp add: Keyboard_init_def)

lemma pack_set_keycode_example:
  "pack_BBBBH CMD_VIA_SET_KEYCODE 0 1 2 4 = Some [5, 0, 1, 2, 0, 4]"
  by (simp add: pack_BBBBH_def fits_def be_encode_def CMD_VIA_SET_KEYCODE_def numeral_2_eq_2)

text \<open>
  C5. Let \<open>b\<close> be the cached keycode of (layer, row, col). \<^verbatim>\<open>set_key\<close> with \<open>a = b\<close> returns
  in the state before the call: nothing is sent and nothing changes. With \<open>a \<noteq> b\<close>, where the
  write message can be packed and the device answers it, the first call returns having sent
  exactly that one message and stored \<open>a\<close>, and a second call with \<open>a\<close> returns in the state
  the first one left: in total one write request is sent.
\<close>

theorem set_key_dedup:
  assumes "layout s (layer, row, col) = Some b"
  shows "(b = a \<longrightarrow> set_key dev layer row col a s = Return () s) \<and>
         (b \<noteq> a \<longrightarrow>
            (\<forall>msg resp. pack_BBBBH CMD_VIA_SET_KEYCODE layer row col a = Some msg \<longrightarrow>
               dev (sent s) msg = Some resp \<longrightarrow>
               (let s1 = s\<lparr>sent := sent s @ [msg], layout := (layout s)((layer, row, col) \<mapsto> a)\<rparr> in
                set_key dev layer row col a s = Return () s1 \<and>
                set_key dev layer row col a s1 = Return () s1)))"
  using assms by (auto simp: set_key_def usb_send_def Let_def)

theorem set_key_dedup_witness:
  "layout (Keyboard_init\<lparr>layout := [(0, 1, 2) \<mapsto> 3]\<rparr>) (0, 1, 2) = Some 3 \<and>
   (3::int) \<noteq> 4 \<and>
   pack_BBBBH CMD_VIA_SET_KEYCODE 0 1 2 4 = Some [5, 0, 1, 2, 0, 4] \<and>
   set_key (\<lambda>h m. Some []) 0 1 2 4 (Keyboard_init\<lparr>layout := [(0, 1, 2) \<mapsto> 3]\<rparr>) =
     Return () (Keyboard_init\<lparr>sent := [[5, 0, 1, 2, 0, 4]], layout := [(0, 1, 2) \<mapsto> 4]\<rparr>) \<and>
   set_key (\<lambda>h m. Some []) 0 1 2 4
       (Keyboard_init\<lparr>sent := [[5, 0, 1, 2, 0, 4]], layout := [(0, 1, 2) \<mapsto> 4]\<rparr>) =
     Return () (Keyboard_init\<lparr>sent := [[5, 0, 1, 2, 0, 4]], layout := [(0, 1, 2) \<mapsto> 4]\<rparr>)"
  using set_key_dedup [of "Keyboard_init\<lparr>layout := [(0, 1, 2) \<mapsto> 3]\<rparr>" 0 1 2 3 4 "\<lambda>h m. Some []"]
    pack_set_keycode_example
  by (simp add: Keyboard_init_def Let_def)

lemma range_py_simps: "range_py 0 = []" "range_py 1 = [0]" "range_py 2 = [0, 1]"
  by (simp_all add: range_py_def numeral_2_eq_2 upt_rec)

lemma example_fully_populated: "fully_populated example_keyboard"
  by (simp add: fully_populated_def example_keyboard_def Keyboard_init_def range_py_simps)

lemma example_save:
  "save_layout example_keyboard = \<lparr>doc_version = 0, doc_layout = [[[10], [20]]]\<rparr>"
  by (simp add: save_layout_def example_keyboard_def Keyboard_init_def range_py_simps)

lemma set_key_dom: "dom (layout (state_of (set_key dev l r c v s))) = dom (layout s)"
  by (auto simp: set_key_def usb_send_def Let_def bind_def lift_def split: option.splits result.splits)

lemma restore_layout_entry_dom:
  "dom (layout (state_of (restore_layout_entry dev l r c v s))) = dom (layout s)"
  by (simp add: restore_layout_entry_def set_key_dom)

lemma set_key_other:
  "k \<noteq> (l, r, c) \<Longrightarrow> layout (state_of (set_key dev l r c v s)) k = layout s k"
  by (auto simp: set_key_def usb_send_def Let_def bind_def lift_def split: option.splits result.splits)

lemma restore_layout_entry_other:
  "k \<noteq> (l, r, c) \<Longrightarrow> layout (state_of (restore_layout_entry dev l r c v s)) k = layout s k"
  by (simp add: restore_layout_entry_def set_key_other)

lemma restore_layout_entry_unknown:
  "(l, r, c) \<notin> dom (layout s) \<Longrightarrow> restore_layout_entry dev l r c v s = Return () s"
  by (simp add: restore_layout_entry_def)

lemma set_doc_entries:
  "set (doc_entries data) =
     {(int i, int j, int k, doc_layout data ! i ! j ! k) | i j k.
        i < length (doc_layout data) \<and> j < length (doc_layout data ! i) \<and>
        k < length (doc_layout data ! i ! j)}"
  by (fastforce simp: doc_entries_def set_enumerate_py)

lemma for_each_filter:
  assumes "D s"
    and "\<And>x s'. D s' \<Longrightarrow> D (state_of (f x s'))"
    and "\<And>x s'. D s' \<Longrightarrow> \<not> P x \<Longrightarrow> f x s' = Return () s'"
  shows "for_each xs f s = for_each (filter P xs) f s"
  using assms(1)
proof (induction xs arbitrary: s)
  case Nil
  then show ?case by simp
next
  case (Cons x xs)
  show ?case
  proof (cases "P x")
    case True
    have "D (state_of (f x s))" using Cons.prems assms(2) by simp
    then show ?thesis using True Cons.IH
      by (cases "f x s") simp_all
  next
    case False
    then show ?thesis using Cons assms(3) by simp
  qed
qed

lemma for_each_raises:
  assumes "x \<in> set xs" and "I s"
    and "\<And>y s. I s \<Longrightarrow> I (state_of (f y s))"
    and "\<And>s. I s \<Longrightarrow> \<exists>e s'. f x s = Raise e s' \<and> E e"
    and "\<And>y s e s'. I s \<Longrightarrow> f y s = Raise e s' \<Longrightarrow> E e"
  shows "\<exists>e s'. for_each xs f s = Raise e s' \<and> E e"
  using assms(1,2)
proof (induction xs arbitrary: s)
  case Nil
  then show ?case by simp
next
  case (Cons y ys)
  show ?case
  proof (cases "f y s")
    case (Raise e s')
    then show ?thesis using assms(5) Cons.prems by auto
  next
    case (Return u s')
    then have I': "I s'" using assms(3) [OF Cons.prems(2), of y] by simp
    have "x \<in> set ys" using Cons.prems(1) Return assms(4) [OF Cons.prems(2)] by auto
    then show ?thesis using Cons.IH I' Return by simp
  qed
qed

lemma word8_of_int_inj:
  assumes "fits (Suc 0) a" and "fits (Suc 0) b" and "(word_of_int a :: 8 word) = word_of_int b"
  shows "a = b"
proof -
  have "uint (word_of_int a :: 8 word) = uint (word_of_int b :: 8 word)" using assms(3) by simp
  then have "a mod 256 = b mod 256" by (simp add: uint_word_of_int_eq take_bit_eq_mod)
  then show "a = b" using assms(1,2) by (simp add: fits_def)
qed

lemma pack_BBBBH_inj:
  "pack_BBBBH k l r c v = Some msg \<Longrightarrow> pack_BBBBH k l' r' c' v' = Some msg \<Longrightarrow>
     (l, r, c) = (l', r', c')"
  by (auto simp: pack_BBBBH_def split: if_splits dest: word8_of_int_inj)

lemma writes_known_refl: "writes_known s s"
  by (simp add: writes_known_def)

lemma writes_known_set_key:
  "writes_known s s' \<Longrightarrow> writes_known s (state_of (set_key dev l r c v s'))"
  apply (auto simp: writes_known_def set_key_def usb_send_def Let_def bind_def lift_def
      split: option.splits result.splits)
  apply blast+
  done

lemma writes_known_entry:
  "writes_known s s' \<Longrightarrow> writes_known s (state_of (restore_layout_entry dev l r c v s'))"
  by (simp add: restore_layout_entry_def writes_known_set_key)

lemma writes_known_restore:
  "writes_known s (state_of (restore_layout dev data s))"
  unfolding restore_layout_entries
  by (rule for_each_inv [where I = "writes_known s"]) (auto simp: writes_known_refl writes_known_entry)

lemma restore_layout_filter:
  "restore_layout dev data s =
     for_each (filter (known s) (doc_entries data))
       (\<lambda>(l, r, c, col). restore_layout_entry dev l r c col) s"
  unfolding restore_layout_entries
proof (rule for_each_filter [where D = "\<lambda>s'. dom (layout s') = dom (layout s)"])
  show "dom (layout s) = dom (layout s)" by simp
  show "dom (layout (state_of ((case x of (l, r, c, col) \<Rightarrow> restore_layout_entry dev l r c col) s'))) =
          dom (layout s)"
    if "dom (layout s') = dom (layout s)" for x s'
    using that by (cases x) (simp add: restore_layout_entry_dom)
  show "(case x of (l, r, c, col) \<Rightarrow> restore_layout_entry dev l r c col) s' = Return () s'"
    if "dom (layout s') = dom (layout s)" and "\<not> known s x" for x s'
    using that by (cases x) (simp add: known_def restore_layout_entry_def)
qed

lemma keycodes_16bit_set_key:
  "keycodes_16bit s \<Longrightarrow> keycodes_16bit (state_of (set_key dev l r c v s))"
  by (auto simp: keycodes_16bit_def set_key_def usb_send_def Let_def bind_def lift_def
      pack_BBBBH_def ran_def split: option.splits result.splits if_splits)

lemma keycodes_16bit_entry:
  "keycodes_16bit s \<Longrightarrow> keycodes_16bit (state_of (restore_layout_entry dev l r c v s))"
  by (simp add: restore_layout_entry_def keycodes_16bit_set_key)

lemma set_key_errors:
  "set_key dev l r c v s = Raise e s' \<Longrightarrow> e = KeyError \<or> e = StructError \<or> e = TransportError"
  by (auto simp: set_key_def usb_send_def Let_def bind_def lift_def
      split: option.splits result.splits if_splits)

lemma restore_layout_entry_errors:
  "restore_layout_entry dev l r c v s = Raise e s' \<Longrightarrow> e = StructError \<or> e = TransportError"
  by (auto simp: restore_layout_entry_def set_key_def usb_send_def Let_def bind_def lift_def
      split: option.splits result.splits if_splits)

lemma restore_layout_entry_sentinel:
  "(l, r, c) \<in> dom (layout s) \<Longrightarrow> keycodes_16bit s \<Longrightarrow>
     restore_layout_entry dev l r c (- 1) s = Raise StructError s"
proof -
  assume k: "(l, r, c) \<in> dom (layout s)" and ok: "keycodes_16bit s"
  from k obtain v where v: "layout s (l, r, c) = Some v" by auto
  then have "v \<in> ran (layout s)" by (auto simp: ran_def)
  then have "fits 2 v" using ok by (simp add: keycodes_16bit_def)
  then have ne: "v \<noteq> - 1" by (auto simp: fits_def)
  have "pack_BBBBH CMD_VIA_SET_KEYCODE l r c (- 1) = None"
    by (simp add: pack_BBBBH_def fits_def)
  then show ?thesis using k v ne by (simp add: restore_layout_entry_def set_key_def)
qed

text \<open>
  C2. For a session whose \<open>layout\<close> has an entry for every triple within the layer count and
  the matrix dimensions, restoring the document that \<^verbatim>\<open>save_layout\<close> gives returns in the
  state before the call: \<open>layout\<close> is unchanged and no message is sent. (By
  \<open>restore_save_noop\<close> the same holds without the premise.)
\<close>

theorem restore_save_roundtrip:
  "fully_populated s \<Longrightarrow> restore_layout dev (save_layout s) s = Return () s"
  by (rule restore_save_noop)

theorem restore_save_roundtrip_witness:
  "fully_populated example_keyboard \<and>
   save_layout example_keyboard = \<lparr>doc_version = 0, doc_layout = [[[10], [20]]]\<rparr> \<and>
   restore_layout silent_device \<lparr>doc_version = 0, doc_layout = [[[10], [20]]]\<rparr> example_keyboard =
     Return () example_keyboard"
  using restore_save_roundtrip [OF example_fully_populated, of silent_device]
  by (simp add: example_fully_populated example_save)

text \<open>
  C6. Let (l, r, c) be no key of \<open>layout\<close>. An entry of a save document for that triple is
  passed over: the loop body returns in the unchanged state. For the whole of
  \<^verbatim>\<open>restore_layout\<close>: it runs as it would on the document's entries for known triples alone,
  (l, r, c) is still no key of \<open>layout\<close> afterwards, and no set-keycode message for (l, r, c)
  is among the messages sent, whether \<^verbatim>\<open>restore_layout\<close> returns or raises on another entry.
\<close>

theorem restore_skips_unknown:
  assumes "(l, r, c) \<notin> dom (layout s)"
  shows "restore_layout_entry dev l r c v s = Return () s \<and>
         restore_layout dev data s =
           for_each (filter (known s) (doc_entries data))
             (\<lambda>(l, r, c, col). restore_layout_entry dev l r c col) s \<and>
         (l, r, c) \<notin> dom (layout (state_of (restore_layout dev data s))) \<and>
         (\<forall>code msg. pack_BBBBH CMD_VIA_SET_KEYCODE l r c code = Some msg \<longrightarrow>
            msg \<notin> set (drop (length (sent s)) (sent (state_of (restore_layout dev data s)))))"
proof -
  have wk: "writes_known s (state_of (restore_layout dev data s))"
    by (rule writes_known_restore)
  have 1: "restore_layout_entry dev l r c v s = Return () s"
    using assms by (rule restore_layout_entry_unknown)
  have 3: "(l, r, c) \<notin> dom (layout (state_of (restore_layout dev data s)))"
    using wk assms by (simp add: writes_known_def)
  have 4: "msg \<notin> set (drop (length (sent s)) (sent (state_of (restore_layout dev data s))))"
    if p: "pack_BBBBH CMD_VIA_SET_KEYCODE l r c code = Some msg" for code msg
  proof
    assume m: "msg \<in> set (drop (length (sent s)) (sent (state_of (restore_layout dev data s))))"
    from wk obtain ws where ws: "sent (state_of (restore_layout dev data s)) = sent s @ ws"
      and all: "\<forall>w \<in> set ws. \<exists>l r c v. (l, r, c) \<in> dom (layout s) \<and>
            pack_BBBBH CMD_VIA_SET_KEYCODE l r c v = Some w"
      by (auto simp: writes_known_def)
    from m ws have "msg \<in> set ws" by simp
    with all obtain l' r' c' v' where k: "(l', r', c') \<in> dom (layout s)"
      and p': "pack_BBBBH CMD_VIA_SET_KEYCODE l' r' c' v' = Some msg" by blast
    from pack_BBBBH_inj [OF p p'] k assms show False by simp
  qed
  show ?thesis using 1 3 4 restore_layout_filter by blast
qed

lemma example_restore_longer:
  "restore_layout silent_device \<lparr>doc_version = 0, doc_layout = [[[10], [20]], [[30]]]\<rparr>
     example_keyboard = Return () example_keyboard"
  by (simp add: restore_layout_def enumerate_py_def restore_layout_entry_def set_key_def
      example_keyboard_def Keyboard_init_def)

theorem restore_skips_unknown_witness:
  "(1, 0, 0) \<notin> dom (layout example_keyboard) \<and>
   restore_layout_entry silent_device 1 0 0 30 example_keyboard = Return () example_keyboard \<and>
   restore_layout silent_device \<lparr>doc_version = 0, doc_layout = [[[10], [20]], [[30]]]\<rparr>
     example_keyboard = Return () example_keyboard \<and>
   pack_BBBBH CMD_VIA_SET_KEYCODE 1 0 0 30 = Some [5, 1, 0, 0, 0, 30] \<and>
   [5, 1, 0, 0, 0, 30] \<notin> set (drop (length (sent example_keyboard))
      (sent (state_of (restore_layout silent_device
         \<lparr>doc_version = 0, doc_layout = [[[10], [20]], [[30]]]\<rparr> example_keyboard))))"
proof -
  have u: "(1, 0, 0) \<notin> dom (layout example_keyboard)"
    by (simp add: example_keyboard_def Keyboard_init_def)
  have p: "pack_BBBBH CMD_VIA_SET_KEYCODE 1 0 0 30 = Some [5, 1, 0, 0, 0, 30]"
    by (simp add: pack_BBBBH_def fits_def be_encode_def CMD_VIA_SET_KEYCODE_def numeral_2_eq_2)
  have r: "restore_layout silent_device \<lparr>doc_version = 0, doc_layout = [[[10], [20]], [[30]]]\<rparr>
      example_keyboard = Return () example_keyboard"
    by (rule example_restore_longer)
  from restore_skips_unknown [OF u, of silent_device 30
        "\<lparr>doc_version = 0, doc_layout = [[[10], [20]], [[30]]]\<rparr>"]
  have e: "restore_layout_entry silent_device 1 0 0 30 example_keyboard = Return () example_keyboard"
    and n: "[5, 1, 0, 0, 0, 30] \<notin> set (drop (length (sent example_keyboard))
      (sent (state_of (restore_layout silent_device
         \<lparr>doc_version = 0, doc_layout = [[[10], [20]], [[30]]]\<rparr> example_keyboard))))"
    using p by blast+
  show ?thesis using u e r p n by blast
qed

text \<open>
  C9. Let (l, r, c) be a key of \<open>layout\<close>, the cached keycodes be unsigned 16-bit values, and
  the save document hold \<open>-1\<close> at (l, r, c). The entry is not passed over: its loop body
  calls \<^verbatim>\<open>set_key\<close> with \<open>-1\<close>, packing the message fails and \<^verbatim>\<open>struct.error\<close> is raised
  before anything is sent. \<^verbatim>\<open>restore_layout\<close> on that document does not return: it raises,
  at that entry or at an earlier one, \<^verbatim>\<open>struct.error\<close> or the error of the transport.
\<close>

theorem restore_sentinel_raises:
  assumes "(l, r, c) \<in> dom (layout s)" and "keycodes_16bit s"
    and "(l, r, c, - 1) \<in> set (doc_entries data)"
  shows "restore_layout_entry dev l r c (- 1) s = Raise StructError s \<and>
         (\<exists>e s'. restore_layout dev data s = Raise e s' \<and> (e = StructError \<or> e = TransportError))"
proof -
  let ?I = "\<lambda>s'. dom (layout s') = dom (layout s) \<and> keycodes_16bit s'"
  have "\<exists>e s'. for_each (doc_entries data)
          (\<lambda>(l, r, c, col). restore_layout_entry dev l r c col) s = Raise e s' \<and>
          (e = StructError \<or> e = TransportError)"
  proof (rule for_each_raises [where I = ?I and x = "(l, r, c, - 1)"])
    show "(l, r, c, - 1) \<in> set (doc_entries data)" by (rule assms(3))
    show "?I s" using assms(2) by simp
    show "?I (state_of ((case y of (l, r, c, col) \<Rightarrow> restore_layout_entry dev l r c col) s'))"
      if "?I s'" for y s'
      using that by (cases y) (simp add: restore_layout_entry_dom keycodes_16bit_entry)
    show "\<exists>e s''. (case (l, r, c, - 1) of (l, r, c, col) \<Rightarrow> restore_layout_entry dev l r c col) s' =
            Raise e s'' \<and> (e = StructError \<or> e = TransportError)"
      if "?I s'" for s'
      using that assms(1) by (simp add: restore_layout_entry_sentinel)
    show "e = StructError \<or> e = TransportError"
      if "?I s'" and "(case y of (l, r, c, col) \<Rightarrow> restore_layout_entry dev l r c col) s' = Raise e s''"
      for y s' e s''
      using that(2) by (cases y) (auto dest: restore_layout_entry_errors)
  qed
  then show ?thesis
    using assms by (simp add: restore_layout_entries restore_layout_entry_sentinel)
qed

lemma example_keycodes: "keycodes_16bit example_keyboard"
  by (auto simp: keycodes_16bit_def example_keyboard_def Keyboard_init_def ran_def fits_def
      split: if_splits)

lemma example_entries:
  "doc_entries \<lparr>doc_version = 0, doc_layout = [[[10], [- 1]]]\<rparr> = [(0, 0, 0, 10), (0, 1, 0, - 1)]"
  by (simp add: doc_entries_def enumerate_py_def)

theorem restore_sentinel_raises_witness:
  "(0, 1, 0) \<in> dom (layout example_keyboard) \<and> keycodes_16bit example_keyboard \<and>
   (0, 1, 0, - 1) \<in> set (doc_entries \<lparr>doc_version = 0, doc_layout = [[[10], [- 1]]]\<rparr>) \<and>
   restore_layout_entry silent_device 0 1 0 (- 1) example_keyboard =
     Raise StructError example_keyboard \<and>
   restore_layout silent_device \<lparr>doc_version = 0, doc_layout = [[[10], [- 1]]]\<rparr> example_keyboard =
     Raise StructError example_keyboard"
proof -
  have k: "(0, 1, 0) \<in> dom (layout example_keyboard)"
    by (simp add: example_keyboard_def Keyboard_init_def)
  have e: "(0, 1, 0, - 1) \<in> set (doc_entries \<lparr>doc_version = 0, doc_layout = [[[10], [- 1]]]\<rparr>)"
    by (simp add: example_entries)
  have r: "restore_layout silent_device \<lparr>doc_version = 0, doc_layout = [[[10], [- 1]]]\<rparr>
      example_keyboard = Raise StructError example_keyboard"
    by (simp add: restore_layout_def enumerate_py_def restore_layout_entry_def set_key_def
      example_keyboard_def Keyboard_init_def pack_BBBBH_def fits_def)
  from restore_sentinel_raises [OF k example_keycodes e, of silent_device]
  have x: "restore_layout_entry silent_device 0 1 0 (- 1) example_keyboard =
     Raise StructError example_keyboard"
    by blast
  show ?thesis using k example_keycodes e x r by blast
qed

text \<open>
  C10. Every entry of the document that \<^verbatim>\<open>save_layout\<close> gives has its layer below the layer
  count, its row below \<open>rows\<close> and its column below \<open>cols\<close>. A key (l, r, c) of \<open>layout\<close>
  with \<open>l\<close>, \<open>r\<close> or \<open>c\<close> at or beyond its bound has no entry in that document, and restoring
  the document, in whatever state, leaves the keycode cached for (l, r, c) as it is.
\<close>

theorem save_skips_out_of_bounds:
  assumes "layout s (l, r, c) = Some v"
    and "layers s \<le> l \<or> rows s \<le> r \<or> cols s \<le> c"
  shows "(\<forall>e \<in> set (doc_entries (save_layout s)).
            case e of (l', r', c', v') \<Rightarrow>
              0 \<le> l' \<and> l' < layers s \<and> 0 \<le> r' \<and> r' < rows s \<and> 0 \<le> c' \<and> c' < cols s) \<and>
         (\<forall>v'. (l, r, c, v') \<notin> set (doc_entries (save_layout s))) \<and>
         (\<forall>s'. layout (state_of (restore_layout dev (save_layout s) s')) (l, r, c) =
                layout s' (l, r, c))"
proof -
  have a: "\<forall>e \<in> set (doc_entries (save_layout s)).
            case e of (l', r', c', v') \<Rightarrow>
              0 \<le> l' \<and> l' < layers s \<and> 0 \<le> r' \<and> r' < rows s \<and> 0 \<le> c' \<and> c' < cols s"
    by (auto simp: set_doc_entries_save)
  have b: "\<forall>v'. (l, r, c, v') \<notin> set (doc_entries (save_layout s))"
    using assms(2) by (auto simp: set_doc_entries_save)
  have c: "layout (state_of (restore_layout dev (save_layout s) s')) (l, r, c) = layout s' (l, r, c)"
    for s'
    unfolding restore_layout_entries
  proof (rule for_each_inv [where I = "\<lambda>t. layout t (l, r, c) = layout s' (l, r, c)"])
    show "layout s' (l, r, c) = layout s' (l, r, c)" by simp
    show "layout (state_of ((case x of (l, r, c, col) \<Rightarrow> restore_layout_entry dev l r c col) t))
            (l, r, c) = layout s' (l, r, c)"
      if "x \<in> set (doc_entries (save_layout s))" and "layout t (l, r, c) = layout s' (l, r, c)"
      for x t
    proof (cases x)
      case (fields l' r' c' v')
      then have "(l, r, c) \<noteq> (l', r', c')" using that(1) b by auto
      then show ?thesis using that(2) fields by (simp add: restore_layout_entry_other)
    qed
  qed
  show ?thesis using a b c by blast
qed

lemma example_narrow_save:
  "save_layout example_narrow_keyboard = \<lparr>doc_version = 0, doc_layout = [[[10]]]\<rparr>"
  by (simp add: save_layout_def example_narrow_keyboard_def example_keyboard_def Keyboard_init_def
      range_py_simps)

theorem save_skips_out_of_bounds_witness:
  "layout example_narrow_keyboard (0, 1, 0) = Some 20 \<and>
   rows example_narrow_keyboard \<le> 1 \<and>
   save_layout example_narrow_keyboard = \<lparr>doc_version = 0, doc_layout = [[[10]]]\<rparr> \<and>
   (0, 1, 0, 20) \<notin> set (doc_entries (save_layout example_narrow_keyboard)) \<and>
   layout (state_of (restore_layout silent_device (save_layout example_narrow_keyboard)
       (example_narrow_keyboard\<lparr>layout := (layout example_narrow_keyboard)((0, 1, 0) \<mapsto> 99)\<rparr>)))
     (0, 1, 0) = Some 99"
proof -
  have a: "layout example_narrow_keyboard (0, 1, 0) = Some 20"
    by (simp add: example_narrow_keyboard_def example_keyboard_def Keyboard_init_def)
  have b: "layers example_narrow_keyboard \<le> 0 \<or> rows example_narrow_keyboard \<le> 1 \<or>
           cols example_narrow_keyboard \<le> 0"
    by (simp add: example_narrow_keyboard_def example_keyboard_def Keyboard_init_def)
  have c: "rows example_narrow_keyboard \<le> 1"
    by (simp add: example_narrow_keyboard_def example_keyboard_def Keyboard_init_def)
  from save_skips_out_of_bounds [OF a b, of silent_device]
  have d: "(0, 1, 0, 20) \<notin> set (doc_entries (save_layout example_narrow_keyboard))"
    and e: "layout (state_of (restore_layout silent_device (save_layout example_narrow_keyboard)
       (example_narrow_keyboard\<lparr>layout := (layout example_narrow_keyboard)((0, 1, 0) \<mapsto> 99)\<rparr>)))
     (0, 1, 0) =
      layout (example_narrow_keyboard\<lparr>layout := (layout example_narrow_keyboard)((0, 1, 0) \<mapsto> 99)\<rparr>)
        (0, 1, 0)"
    by blast+
  have f: "layout (example_narrow_keyboard\<lparr>layout := (layout example_narrow_keyboard)((0, 1, 0) \<mapsto> 99)\<rparr>)
        (0, 1, 0) = Some 99"
    by simp
  show ?thesis using a c example_narrow_save d e f by simp
qed

subsection \<open>The chunked fetch\<close>

lemma chunk_count_step:
  fixes sz M :: int
  assumes "0 < M" and "0 < sz"
  shows "(max sz 0 + M - 1) div M = 1 + (max (sz - M) 0 + M - 1) div M"
proof (cases "M \<le> sz")
  case True
  then have "(max (sz - M) 0 + M - 1) div M = (sz - 1) div M" by (simp add: max_def)
  moreover have "(max sz 0 + M - 1) div M = ((sz - 1) + M) div M" using assms by (simp add: max_def algebra_simps)
  moreover have "((sz - 1) + M) div M = (sz - 1) div M + 1"
    by (rule div_add_self2) (use assms in simp)
  ultimately show ?thesis by simp
next
  case False
  then have a: "(max (sz - M) 0 + M - 1) div M = (M - 1) div M" by (simp add: max_def)
  have b: "(M - 1) div M = 0" using assms by simp
  have "(max sz 0 + M - 1) div M = ((sz - 1) + M) div M" using assms by (simp add: max_def algebra_simps)
  also have "\<dots> = (sz - 1) div M + 1"
    by (rule div_add_self2) (use assms in simp)
  also have "(sz - 1) div M = 0" using assms False by simp
  finally show ?thesis using a b by simp
qed

lemma chunk_count_nonneg:
  fixes sz M :: int
  shows "0 < M \<Longrightarrow> 0 \<le> (max sz 0 + M - 1) div M"
  by (simp add: pos_imp_zdiv_nonneg_iff)

lemma fetch_payload_run:
  assumes M: "0 < M"
    and dev: "\<forall>h m. \<exists>d. dev h m = Some d \<and> int (length d) = M"
  shows "0 \<le> block \<Longrightarrow> block + (max sz 0 + M - 1) div M \<le> 2 ^ 32 \<Longrightarrow>
     \<exists>buf msgs. fetch_payload dev M sz block payload s =
         Some (Return (payload @ buf) (s\<lparr>sent := sent s @ msgs\<rparr>)) \<and>
       int (length msgs) = (max sz 0 + M - 1) div M \<and>
       map Some msgs =
         map (\<lambda>i. pack_BBI CMD_VIA_VIAL_PREFIX CMD_VIAL_GET_DEFINITION (block + int i))
           [0..<length msgs] \<and>
       int (length buf) = max sz 0"
proof (induction "nat sz" arbitrary: sz block payload s rule: less_induct)
  case less
  show ?case
  proof (cases "0 < sz")
    case False
    then have "(max sz 0 + M - 1) div M = 0" using M by (simp add: max_def)
    moreover have "fetch_payload dev M sz block payload s = Some (Return payload s)"
      using False by (subst fetch_payload.simps) simp
    ultimately show ?thesis using False
      by (intro exI [of _ "[]"]) (simp add: max_def)
  next
    case True
    let ?n' = "(max (sz - M) 0 + M - 1) div M"
    have cnt: "(max sz 0 + M - 1) div M = 1 + ?n'" by (rule chunk_count_step [OF M True])
    have n'0: "0 \<le> ?n'" by (rule chunk_count_nonneg [OF M])
    have blk: "fits 4 block" using less.prems cnt n'0 by (simp add: fits_def)
    obtain msg where msg: "pack_BBI CMD_VIA_VIAL_PREFIX CMD_VIAL_GET_DEFINITION block = Some msg"
      using blk by (simp add: pack_BBI_def fits_def CMD_VIA_VIAL_PREFIX_def CMD_VIAL_GET_DEFINITION_def)
    obtain data where data: "dev (sent s) msg = Some data" and len: "int (length data) = M"
      using dev by blast
    let ?chunk = "if sz < M then take (nat sz) data else data"
    let ?s1 = "s\<lparr>sent := sent s @ [msg]\<rparr>"
    have step: "fetch_payload dev M sz block payload s =
        fetch_payload dev M (sz - M) (block + 1) (payload @ ?chunk) ?s1"
      using True msg data by (subst fetch_payload.simps) (simp add: usb_send_def Let_def)
    have "nat (sz - M) < nat sz" using True M by simp
    moreover have "0 \<le> block + 1" using less.prems by simp
    moreover have "block + 1 + ?n' \<le> 2 ^ 32" using less.prems cnt by simp
    ultimately obtain buf msgs where
      run: "fetch_payload dev M (sz - M) (block + 1) (payload @ ?chunk) ?s1 =
         Some (Return ((payload @ ?chunk) @ buf) (?s1\<lparr>sent := sent ?s1 @ msgs\<rparr>))"
      and n: "int (length msgs) = ?n'"
      and ms: "map Some msgs =
         map (\<lambda>i. pack_BBI CMD_VIA_VIAL_PREFIX CMD_VIAL_GET_DEFINITION (block + 1 + int i))
           [0..<length msgs]"
      and bl: "int (length buf) = max (sz - M) 0"
      using less.hyps [of "sz - M" "block + 1" "payload @ ?chunk" ?s1] by blast
    have chunk_len: "int (length ?chunk) + max (sz - M) 0 = max sz 0"
      using True len by (auto simp: max_def)
    have idx: "map Some (msg # msgs) =
         map (\<lambda>i. pack_BBI CMD_VIA_VIAL_PREFIX CMD_VIAL_GET_DEFINITION (block + int i))
           [0..<length (msg # msgs)]"
      using msg ms by (simp add: upt_conv_Cons map_Suc_upt [symmetric] add.assoc del: upt_Suc)
    show ?thesis
      apply (rule exI [of _ "?chunk @ buf"])
      apply (rule exI [of _ "msg # msgs"])
      using step run n cnt idx bl chunk_len
      apply simp
      done
  qed
qed

lemma chunk_count_bounds:
  fixes S M :: int
  assumes "0 < M"
  shows "M * ((S + M - 1) div M) \<le> S + M - 1" and "S \<le> M * ((S + M - 1) div M)"
proof -
  define n where "n = (S + M - 1) div M"
  define m where "m = (S + M - 1) mod M"
  have id: "M * n + m = S + M - 1" by (simp add: n_def m_def)
  have m0: "0 \<le> m" and m1: "m < M" using assms by (simp_all add: m_def)
  show "M * ((S + M - 1) div M) \<le> S + M - 1" using id m0 unfolding n_def by linarith
  show "S \<le> M * ((S + M - 1) div M)" using id m1 unfolding n_def by linarith
qed

lemma chunk_count_le:
  fixes S M :: int
  assumes "0 < M" and "0 \<le> S"
  shows "(S + M - 1) div M \<le> S"
proof (rule ccontr)
  define n where "n = (S + M - 1) div M"
  assume "\<not> (S + M - 1) div M \<le> S"
  then have "S + 1 \<le> n" by (simp add: n_def)
  then have "M * (S + 1) \<le> M * n" using assms(1) by (intro mult_left_mono) simp_all
  moreover have "1 * S \<le> M * S" using assms by (intro mult_right_mono) simp_all
  moreover have "M * (S + 1) = M * S + M" by (simp add: algebra_simps)
  moreover have "M * n \<le> S + M - 1" using chunk_count_bounds(1) [OF assms(1), of S] by (simp add: n_def)
  ultimately show False by linarith
qed

lemma chunk_count_ceiling:
  fixes S M :: int
  assumes "0 < M"
  shows "((S + M - 1) div M - 1) * M < S \<and> S \<le> (S + M - 1) div M * M"
proof -
  define n where "n = (S + M - 1) div M"
  have a: "M * n \<le> S + M - 1" and b: "S \<le> M * n"
    using chunk_count_bounds [OF assms, of S] by (simp_all add: n_def)
  have c: "(n - 1) * M = M * n - M" by (simp add: algebra_simps)
  have "M * n - M < S \<and> S \<le> M * n" using a b by linarith
  then have "(n - 1) * M < S \<and> S \<le> n * M" by (simp add: algebra_simps)
  then show ?thesis by (simp add: n_def)
qed

lemma le_decode_range: "0 \<le> le_decode bs \<and> le_decode bs < 256 ^ length bs"
proof (induction bs)
  case Nil
  then show ?case by simp
next
  case (Cons b bs)
  have "0 \<le> uint b" by simp
  moreover have "uint b < 256" using uint_bounded [of b] by simp
  ultimately show ?case using Cons by simp
qed

lemma unpack_I_range: "unpack_I data = Some S \<Longrightarrow> 0 \<le> S \<and> S < 2 ^ 32"
  using le_decode_range [of "take 4 data"]
  by (auto simp: unpack_I_def Let_def split: if_splits)

lemma two_byte_fetch:
  "fetch_payload two_byte_device 2 3 0 [] Keyboard_init =
     Some (Return [1, 2, 1]
       (Keyboard_init\<lparr>sent := [[254, 2, 0, 0, 0, 0], [254, 2, 1, 0, 0, 0]]\<rparr>))"
  by (simp add: fetch_payload.simps pack_BBI_def fits_def usb_send_def two_byte_device_def
      Keyboard_init_def CMD_VIA_VIAL_PREFIX_def CMD_VIAL_GET_DEFINITION_def Let_def
      numeral_eq_Suc)

text \<open>
  C3. Let the message length \<open>M\<close> be positive, every answer of the device be \<open>M\<close> bytes long,
  and \<open>S\<close> be the declared size as \<^verbatim>\<open>struct.unpack("<I", data[0:4])\<close> gives it. Then the
  loop of \<^verbatim>\<open>reload_layout\<close> ends and returns a buffer of exactly \<open>S\<close> bytes. It sends
  \<open>n = (S + M - 1) div M\<close> messages, the least \<open>n\<close> with \<open>S \<le> n * M\<close> (none when \<open>S = 0\<close>),
  and they are the chunk requests for the blocks 0, 1, ..., \<open>n - 1\<close> in this order.
\<close>

theorem fetch_payload_chunks:
  assumes "0 < M"
    and "\<forall>h m. \<exists>d. dev h m = Some d \<and> int (length d) = M"
    and "unpack_I data = Some S"
  shows "\<exists>buf msgs. fetch_payload dev M S 0 [] s = Some (Return buf (s\<lparr>sent := sent s @ msgs\<rparr>)) \<and>
           int (length msgs) = (S + M - 1) div M \<and>
           (int (length msgs) - 1) * M < S \<and> S \<le> int (length msgs) * M \<and>
           map Some msgs =
             map (\<lambda>i. pack_BBI CMD_VIA_VIAL_PREFIX CMD_VIAL_GET_DEFINITION (int i))
               [0..<length msgs] \<and>
           int (length buf) = S"
proof -
  have S: "0 \<le> S" "S < 2 ^ 32" using unpack_I_range [OF assms(3)] by simp_all
  have "(S + M - 1) div M \<le> S" by (rule chunk_count_le [OF assms(1) S(1)])
  then have "0 + (max S 0 + M - 1) div M \<le> 2 ^ 32" using S by (simp add: max_def)
  from fetch_payload_run [OF assms(1,2) _ this, of "[]" s]
  obtain buf msgs where
    "fetch_payload dev M S 0 [] s = Some (Return buf (s\<lparr>sent := sent s @ msgs\<rparr>))"
    "int (length msgs) = (max S 0 + M - 1) div M"
    "map Some msgs =
       map (\<lambda>i. pack_BBI CMD_VIA_VIAL_PREFIX CMD_VIAL_GET_DEFINITION (int i)) [0..<length msgs]"
    "int (length buf) = max S 0"
    by auto
  moreover have "max S 0 = S" using S(1) by simp
  ultimately show ?thesis using chunk_count_ceiling [OF assms(1), of S] by auto
qed

theorem fetch_payload_chunks_witness:
  "(0::int) < 2 \<and> (\<forall>h m. \<exists>d. two_byte_device h m = Some d \<and> int (length d) = 2) \<and>
   unpack_I [3, 0, 0, 0] = Some 3 \<and>
   fetch_payload two_byte_device 2 3 0 [] Keyboard_init =
     Some (Return [1, 2, 1]
       (Keyboard_init\<lparr>sent := [[254, 2, 0, 0, 0, 0], [254, 2, 1, 0, 0, 0]]\<rparr>)) \<and>
   (\<exists>buf msgs. fetch_payload two_byte_device 2 3 0 [] Keyboard_init =
       Some (Return buf (Keyboard_init\<lparr>sent := sent Keyboard_init @ msgs\<rparr>)) \<and>
     int (length msgs) = 2 \<and> int (length buf) = 3)"
proof -
  have d: "\<forall>h m. \<exists>d. two_byte_device h m = Some d \<and> int (length d) = 2"
    by (simp add: two_byte_device_def)
  have u: "unpack_I [3, 0, 0, 0] = Some 3" by (simp add: unpack_I_def)
  from fetch_payload_chunks [OF _ d u, of Keyboard_init]
  have "\<exists>buf msgs. fetch_payload two_byte_device 2 3 0 [] Keyboard_init =
       Some (Return buf (Keyboard_init\<lparr>sent := sent Keyboard_init @ msgs\<rparr>)) \<and>
     int (length msgs) = 2 \<and> int (length buf) = 3"
    by auto
  then show ?thesis using d u two_byte_fetch by simp
qed

subsection \<open>Discovery\<close>




































subsection \<open>The keycodes of a loaded keymap\<close>

text \<open>
  The keycodes that \<^verbatim>\<open>reload_keymap\<close> stores are unsigned 16-bit values, and \<^verbatim>\<open>set_key\<close>
  stores a keycode only after packing it into such a field (\<open>keycodes_16bit_set_key\<close>): in a
  session whose \<open>layout\<close> was filled by \<^verbatim>\<open>reload\<close> every cached keycode is one.
\<close>

lemma unpack_H_range: "unpack_H data = Some v \<Longrightarrow> fits 2 v"
  using le_decode_range [of "rev (take 2 (drop 4 data))"]
  by (auto simp: unpack_H_def be_decode_def fits_def Let_def split: if_splits)

lemma keycodes_16bit_update:
  "keycodes_16bit s \<Longrightarrow> fits 2 v \<Longrightarrow> keycodes_16bit (s\<lparr>layout := (layout s)(k \<mapsto> v)\<rparr>)"
  by (auto simp: keycodes_16bit_def ran_def split: if_splits)

lemma reload_keymap_keycodes:
  "keycodes_16bit s \<Longrightarrow> keycodes_16bit (state_of (reload_keymap dev s))"
  unfolding reload_keymap_def
proof (rule for_each_inv [where I = keycodes_16bit])
  fix layer t
  assume t: "keycodes_16bit t"
  show "keycodes_16bit (state_of (for_each (rowcol t) (\<lambda>(row, col) s.
         bind (lift StructError (pack_BBBB CMD_VIA_GET_KEYCODE layer row col) s) (\<lambda>msg s.
         bind (usb_send dev msg s) (\<lambda>data s.
         bind (lift StructError (unpack_H data) s) (\<lambda>keycode s.
           Return () (s\<lparr>layout := (layout s)((layer, row, col) \<mapsto> keycode)\<rparr>))))) t))"
  proof (rule for_each_inv [where I = keycodes_16bit])
    show "keycodes_16bit t" by (rule t)
    fix x u
    assume u: "keycodes_16bit u"
    have sent_ok: "keycodes_16bit (u\<lparr>sent := m\<rparr>)" for m
      using u by (simp add: keycodes_16bit_def)
    show "keycodes_16bit (state_of ((case x of (row, col) \<Rightarrow> \<lambda>s.
         bind (lift StructError (pack_BBBB CMD_VIA_GET_KEYCODE layer row col) s) (\<lambda>msg s.
         bind (usb_send dev msg s) (\<lambda>data s.
         bind (lift StructError (unpack_H data) s) (\<lambda>keycode s.
           Return () (s\<lparr>layout := (layout s)((layer, row, col) \<mapsto> keycode)\<rparr>))))) u))"
      using u sent_ok keycodes_16bit_update [OF sent_ok]
      by (cases x)
         (auto simp: bind_def lift_def usb_send_def Let_def
            split: option.splits result.splits dest: unpack_H_range)
  qed
qed

lemma keycodes_16bit_empty: "keycodes_16bit (s\<lparr>layout := Map.empty\<rparr>)"
  by (simp add: keycodes_16bit_def)

end
